theory Spec2Isabelle
  imports Complex_Main
begin

section \<open>JavaScript and DOM primitives used by main.js\<close>

text \<open>
  Exceptions that the modelled code can raise. A property access on \<open>null\<close> or
  \<open>undefined\<close> raises a TypeError; \<open>document.querySelector\<close> raises a SyntaxError
  on a string that is no selector. An operation that raises keeps every mutation
  made before the raise, so an operation returns the raised exception (if any)
  together with the state reached.
\<close>

datatype js_error = TypeError | SyntaxError

type_synonym 's outcome = "js_error option \<times> 's"

text \<open>
  A JavaScript number restricted to what main.js computes with indices: an integer
  or NaN (the result of \<open>%\<close> with a zero divisor).
\<close>

datatype js_number = Num int | NaN

fun js_add :: "js_number \<Rightarrow> js_number \<Rightarrow> js_number" where
  "js_add (Num a) (Num b) = Num (a + b)"
| "js_add _ _ = NaN"

fun js_sub :: "js_number \<Rightarrow> js_number \<Rightarrow> js_number" where
  "js_sub (Num a) (Num b) = Num (a - b)"
| "js_sub _ _ = NaN"

text \<open>The \<open>%\<close> operator: the remainder takes the sign of the dividend.\<close>

fun js_rem :: "js_number \<Rightarrow> js_number \<Rightarrow> js_number" where
  "js_rem (Num a) (Num b) = (if b = 0 then NaN else Num (sgn a * (\<bar>a\<bar> mod \<bar>b\<bar>)))"
| "js_rem _ _ = NaN"

text \<open>\<open>xs[i]\<close>: \<open>undefined\<close> (here \<open>None\<close>) outside the array and at NaN.\<close>

fun js_index :: "'a list \<Rightarrow> js_number \<Rightarrow> 'a option" where
  "js_index xs (Num i) = (if 0 \<le> i \<and> i < int (length xs) then Some (xs ! nat i) else None)"
| "js_index xs NaN = None"

text \<open>
  \<open>classList\<close> is an ordered set of tokens: \<open>add\<close> appends a token that is not yet
  there, \<open>remove\<close> deletes it, \<open>toggle\<close> does the one or the other.
\<close>

definition contains :: "string list \<Rightarrow> string \<Rightarrow> bool" where
  "contains cl c = (c \<in> set cl)"

definition add_class :: "string list \<Rightarrow> string \<Rightarrow> string list" where
  "add_class cl c = (if contains cl c then cl else cl @ [c])"

definition remove_class :: "string list \<Rightarrow> string \<Rightarrow> string list" where
  "remove_class cl c = filter (\<lambda>t. t \<noteq> c) cl"

definition toggle_class :: "string list \<Rightarrow> string \<Rightarrow> string list" where
  "toggle_class cl c = (if contains cl c then remove_class cl c else add_class cl c)"

text \<open>An element as far as the navigation code touches it: classes and attributes.\<close>

record element =
  classList :: "string list"
  attributes :: "string \<rightharpoonup> string"

definition setAttribute :: "element \<Rightarrow> string \<Rightarrow> string \<Rightarrow> element" where
  "setAttribute e n v = e\<lparr>attributes := (attributes e)(n \<mapsto> v)\<rparr>"

text \<open>\<open>setAttribute\<close> with a boolean argument stores its string conversion.\<close>

definition js_string_of_bool :: "bool \<Rightarrow> string" where
  "js_string_of_bool b = (if b then ''true'' else ''false'')"

section \<open>Lightbox gallery (initLightbox)\<close>

text \<open>
  A gallery item matched by \<open>[data-lightbox]\<close>: the value of its \<open>data-lightbox\<close>
  attribute, the \<open>alt\<close> of its first \<open>img\<close> descendant (\<open>None\<close> when it has no
  \<open>img\<close>), and whether the item can take the focus: \<open>focus()\<close> on an element that
  cannot leaves the focus where it is.
\<close>

record gallery_item =
  data_lightbox :: string
  img_alt :: "string option"
  focusable :: bool

text \<open>\<open>images[i].querySelector('img')?.alt || 'Gallery image'\<close>\<close>

definition alt_or_default :: "gallery_item \<Rightarrow> string" where
  "alt_or_default item =
     (case img_alt item of None \<Rightarrow> ''Gallery image''
      | Some a \<Rightarrow> (if a = [] then ''Gallery image'' else a))"

record image_element =
  img_src :: string
  img_alt_text :: string
  style_opacity :: string

datatype focus_target = FocusBody | FocusClose | FocusItem nat

text \<open>
  What \<open>document.querySelector(All)\<close> finds when initLightbox runs. For the close
  control the value says whether it can take the focus.
\<close>

record lightbox_document =
  q_galleryItems :: "gallery_item list"
  q_lightbox :: "string list option"
  q_lightboxImage :: "image_element option"
  q_lightboxClose :: "bool option"
  q_lightboxPrev :: "unit option"
  q_lightboxNext :: "unit option"

text \<open>
  The variables the closures of initLightbox share, with the parts of the page they
  write: the body's \<open>overflow\<close> style, the focused element and the pending 200ms
  timeouts (each holds the \<open>imgSrc\<close> and \<open>imgAlt\<close> its callback captured).
  The touch positions are \<open>screenX\<close> values in whole pixels.
\<close>

record lightbox_state =
  images :: "gallery_item list"
  lightbox :: "string list"
  lightboxImage :: "image_element option"
  lightboxClose :: "bool option"
  lightboxPrev :: "unit option"
  lightboxNext :: "unit option"
  currentIndex :: js_number
  touchStartX :: int
  touchEndX :: int
  lb_body_overflow :: string
  activeElement :: focus_target
  timeouts :: "(string \<times> string) list"

text \<open>
  initLightbox returns without registering anything when there is no gallery item or
  no \<open>.lightbox\<close> element (\<open>None\<close>); otherwise the closures exist, with
  \<open>currentIndex = 0\<close> and both touch positions 0.
\<close>

definition initLightbox :: "lightbox_document \<Rightarrow> string \<Rightarrow> focus_target \<Rightarrow> lightbox_state option" where
  "initLightbox d overflow focus =
     (case q_lightbox d of
        None \<Rightarrow> None
      | Some lb \<Rightarrow>
          if q_galleryItems d = [] then None
          else Some \<lparr>images = q_galleryItems d, lightbox = lb,
                      lightboxImage = q_lightboxImage d, lightboxClose = q_lightboxClose d,
                      lightboxPrev = q_lightboxPrev d, lightboxNext = q_lightboxNext d,
                      currentIndex = Num 0, touchStartX = 0, touchEndX = 0,
                      lb_body_overflow = overflow, activeElement = focus, timeouts = []\<rparr>)"

definition openLightbox :: "nat \<Rightarrow> lightbox_state \<Rightarrow> lightbox_state outcome" where
  "openLightbox index s =
     (let s1 = s\<lparr>currentIndex := Num (int index)\<rparr> in
      case js_index (images s1) (currentIndex s1) of
        None \<Rightarrow> (Some TypeError, s1)
      | Some item \<Rightarrow>
          (case lightboxImage s1 of
             None \<Rightarrow> (Some TypeError, s1)
           | Some im \<Rightarrow>
               (let s2 = s1\<lparr>lightboxImage :=
                              Some (im\<lparr>img_src := data_lightbox item,
                                       img_alt_text := alt_or_default item\<rparr>),
                            lightbox := add_class (lightbox s1) ''is-active'',
                            lb_body_overflow := ''hidden''\<rparr> in
                case lightboxClose s2 of
                  None \<Rightarrow> (Some TypeError, s2)
                | Some canFocus \<Rightarrow>
                    (None, if canFocus then s2\<lparr>activeElement := FocusClose\<rparr> else s2))))"

definition closeLightbox :: "lightbox_state \<Rightarrow> lightbox_state outcome" where
  "closeLightbox s =
     (let s1 = s\<lparr>lightbox := remove_class (lightbox s) ''is-active'',
                  lb_body_overflow := []\<rparr> in
      case currentIndex s1 of
        NaN \<Rightarrow> (Some TypeError, s1)
      | Num i \<Rightarrow>
          (case js_index (images s1) (Num i) of
             None \<Rightarrow> (Some TypeError, s1)
           | Some item \<Rightarrow>
               (None, if focusable item then s1\<lparr>activeElement := FocusItem (nat i)\<rparr> else s1)))"

text \<open>
  updateLightboxImage reads the item at \<open>currentIndex\<close>, sets the opacity to 0 and
  queues the swap; the callback of the timeout is \<open>runTimeout\<close>.
\<close>

definition updateLightboxImage :: "lightbox_state \<Rightarrow> lightbox_state outcome" where
  "updateLightboxImage s =
     (case js_index (images s) (currentIndex s) of
        None \<Rightarrow> (Some TypeError, s)
      | Some item \<Rightarrow>
          (case lightboxImage s of
             None \<Rightarrow> (Some TypeError, s)
           | Some im \<Rightarrow>
               (None, s\<lparr>lightboxImage := Some (im\<lparr>style_opacity := ''0''\<rparr>),
                        timeouts := timeouts s @ [(data_lightbox item, alt_or_default item)]\<rparr>)))"

definition runTimeout :: "lightbox_state \<Rightarrow> lightbox_state outcome" where
  "runTimeout s =
     (case timeouts s of
        [] \<Rightarrow> (None, s)
      | (imgSrc, imgAlt) # rest \<Rightarrow>
          (case lightboxImage s of
             None \<Rightarrow> (Some TypeError, s\<lparr>timeouts := rest\<rparr>)
           | Some im \<Rightarrow>
               (None, s\<lparr>timeouts := rest,
                        lightboxImage := Some (im\<lparr>img_src := imgSrc, img_alt_text := imgAlt,
                                                 style_opacity := ''1''\<rparr>)\<rparr>)))"

definition nextImage :: "lightbox_state \<Rightarrow> lightbox_state outcome" where
  "nextImage s =
     updateLightboxImage
       (s\<lparr>currentIndex := js_rem (js_add (currentIndex s) (Num 1))
                                   (Num (int (length (images s))))\<rparr>)"

definition prevImage :: "lightbox_state \<Rightarrow> lightbox_state outcome" where
  "prevImage s =
     updateLightboxImage
       (s\<lparr>currentIndex := js_rem (js_add (js_sub (currentIndex s) (Num 1))
                                           (Num (int (length (images s)))))
                                   (Num (int (length (images s))))\<rparr>)"

text \<open>The keydown listener on the document.\<close>

definition onKeydown :: "string \<Rightarrow> lightbox_state \<Rightarrow> lightbox_state outcome" where
  "onKeydown key s =
     (if \<not> contains (lightbox s) ''is-active'' then (None, s)
      else if key = ''Escape'' then closeLightbox s
      else if key = ''ArrowRight'' then nextImage s
      else if key = ''ArrowLeft'' then prevImage s
      else (None, s))"

text \<open>The touch listeners on the lightbox element, and handleSwipe.\<close>

definition swipeThreshold :: int where
  "swipeThreshold = 50"

definition handleSwipe :: "lightbox_state \<Rightarrow> lightbox_state outcome" where
  "handleSwipe s =
     (let diff = touchStartX s - touchEndX s in
      if \<bar>diff\<bar> < swipeThreshold then (None, s)
      else if diff > 0 then nextImage s
      else prevImage s)"

definition onTouchstart :: "int \<Rightarrow> lightbox_state \<Rightarrow> lightbox_state outcome" where
  "onTouchstart screenX s = (None, s\<lparr>touchStartX := screenX\<rparr>)"

definition onTouchend :: "int \<Rightarrow> lightbox_state \<Rightarrow> lightbox_state outcome" where
  "onTouchend screenX s = handleSwipe (s\<lparr>touchEndX := screenX\<rparr>)"

section \<open>Navigation overlay (initNavigation)\<close>

text \<open>
  The elements the closures of initNavigation hold (the logo is optional) and the
  body's \<open>overflow\<close> style; the hamburger and the overlay are two elements.
  initNavigation registers nothing when the hamburger or the overlay is missing.
\<close>

record nav_state =
  hamburger :: element
  navOverlay :: element
  logo :: "string list option"
  nav_body_overflow :: string

definition initNavigation ::
  "element option \<Rightarrow> element option \<Rightarrow> string list option \<Rightarrow> string \<Rightarrow> nav_state option" where
  "initNavigation h ov lg overflow =
     (case h of
        None \<Rightarrow> None
      | Some hb \<Rightarrow>
          (case ov of
             None \<Rightarrow> None
           | Some no \<Rightarrow>
               Some \<lparr>hamburger = hb, navOverlay = no, logo = lg, nav_body_overflow = overflow\<rparr>))"

definition toggleNav :: "nav_state \<Rightarrow> nav_state" where
  "toggleNav s =
     (let isActive = contains (classList (hamburger s)) ''is-active'';
          hb = (hamburger s)\<lparr>classList := toggle_class (classList (hamburger s)) ''is-active''\<rparr>;
          no = (navOverlay s)\<lparr>classList := toggle_class (classList (navOverlay s)) ''is-active''\<rparr>;
          lg = (case logo s of None \<Rightarrow> None | Some cl \<Rightarrow> Some (toggle_class cl ''is-light''))
      in \<lparr>hamburger = setAttribute hb ''aria-expanded'' (js_string_of_bool (\<not> isActive)),
          navOverlay = setAttribute no ''aria-hidden'' (js_string_of_bool isActive),
          logo = lg,
          nav_body_overflow = (if isActive then [] else ''hidden'')\<rparr>)"

definition closeNav :: "nav_state \<Rightarrow> nav_state" where
  "closeNav s =
     (let hb = (hamburger s)\<lparr>classList := remove_class (classList (hamburger s)) ''is-active''\<rparr>;
          no = (navOverlay s)\<lparr>classList := remove_class (classList (navOverlay s)) ''is-active''\<rparr>;
          lg = (case logo s of None \<Rightarrow> None | Some cl \<Rightarrow> Some (remove_class cl ''is-light''))
      in \<lparr>hamburger = setAttribute hb ''aria-expanded'' ''false'',
          navOverlay = setAttribute no ''aria-hidden'' ''true'',
          logo = lg,
          nav_body_overflow = []\<rparr>)"

datatype nav_op = ToggleNav | CloseNav

fun nav_step :: "nav_op \<Rightarrow> nav_state \<Rightarrow> nav_state" where
  "nav_step ToggleNav s = toggleNav s"
| "nav_step CloseNav s = closeNav s"

fun nav_run :: "nav_op list \<Rightarrow> nav_state \<Rightarrow> nav_state" where
  "nav_run [] s = s"
| "nav_run (x # xs) s = nav_run xs (nav_step x s)"

text \<open>
  The state in which the three targets agree and the ARIA attributes mirror them:
  with \<open>a\<close> the hamburger's active class, the overlay's active class is \<open>a\<close>, the
  body's overflow is \<open>hidden\<close> exactly when \<open>a\<close>, \<open>aria-expanded\<close> is \<open>a\<close> and
  \<open>aria-hidden\<close> its negation.
\<close>

definition nav_consistent :: "nav_state \<Rightarrow> bool" where
  "nav_consistent s =
     (let a = contains (classList (hamburger s)) ''is-active'' in
      contains (classList (navOverlay s)) ''is-active'' = a
      \<and> nav_body_overflow s = (if a then ''hidden'' else [])
      \<and> attributes (hamburger s) ''aria-expanded'' = Some (js_string_of_bool a)
      \<and> attributes (navOverlay s) ''aria-hidden'' = Some (js_string_of_bool (\<not> a)))"

section \<open>Gallery filters (initGalleryFilters)\<close>

text \<open>
  \<open>dataset.filter\<close> and \<open>dataset.category\<close> are \<open>undefined\<close> (\<open>None\<close>) on an element
  without the attribute. The pending 50ms timeouts hold the index of the item whose
  \<open>is-visible\<close> class their callback adds.
\<close>

record filter_button =
  data_filter :: "string option"
  btn_classList :: "string list"

record filter_item =
  data_category :: "string option"
  style_display :: string
  item_classList :: "string list"

record filter_state =
  filterButtons :: "filter_button list"
  galleryItems :: "filter_item list"
  revealTimeouts :: "nat list"

definition initGalleryFilters :: "filter_button list \<Rightarrow> filter_item list \<Rightarrow> filter_state option" where
  "initGalleryFilters bs its =
     (if bs = [] \<or> its = [] then None
      else Some \<lparr>filterButtons = bs, galleryItems = its, revealTimeouts = []\<rparr>)"

definition item_shown :: "string option \<Rightarrow> filter_item \<Rightarrow> bool" where
  "item_shown filter_v item = (filter_v = Some ''all'' \<or> data_category item = filter_v)"

definition filter_item_pass :: "string option \<Rightarrow> filter_item \<Rightarrow> filter_item" where
  "filter_item_pass filter_v item =
     (if item_shown filter_v item then item\<lparr>style_display := []\<rparr>
      else item\<lparr>style_display := ''none'',
                item_classList := remove_class (item_classList item) ''is-visible''\<rparr>)"

text \<open>The click listener of the button at position \<open>k\<close> of \<open>filterButtons\<close>.\<close>

definition filterClick :: "nat \<Rightarrow> filter_state \<Rightarrow> filter_state" where
  "filterClick k s =
     (if k < length (filterButtons s) then
        (let filter_v = data_filter (filterButtons s ! k);
             cleared = map (\<lambda>btn. btn\<lparr>btn_classList := remove_class (btn_classList btn) ''is-active''\<rparr>)
                           (filterButtons s);
             marked = cleared[k := (cleared ! k)\<lparr>btn_classList :=
                                     add_class (btn_classList (cleared ! k)) ''is-active''\<rparr>]
         in \<lparr>filterButtons = marked,
             galleryItems = map (filter_item_pass filter_v) (galleryItems s),
             revealTimeouts = revealTimeouts s @
                [i \<leftarrow> [0 ..< length (galleryItems s)]. item_shown filter_v (galleryItems s ! i)]\<rparr>)
      else s)"

definition runRevealTimeout :: "filter_state \<Rightarrow> filter_state" where
  "runRevealTimeout s =
     (case revealTimeouts s of
        [] \<Rightarrow> s
      | i # rest \<Rightarrow>
          s\<lparr>revealTimeouts := rest,
            galleryItems := (galleryItems s)[i := (galleryItems s ! i)\<lparr>item_classList :=
                               add_class (item_classList (galleryItems s ! i)) ''is-visible''\<rparr>]\<rparr>)"

fun filterClicks :: "nat list \<Rightarrow> filter_state \<Rightarrow> filter_state" where
  "filterClicks [] s = s"
| "filterClicks (k # ks) s = filterClicks ks (filterClick k s)"

section \<open>Smooth scroll for anchor links (initSmoothScroll)\<close>

text \<open>
  The page as the click listener sees it: the ids of its elements in document order
  (element \<open>n\<close> is the one at position \<open>n\<close>; a hash \<open>#x\<close> refers to the element
  with the id \<open>x\<close>), \<open>document.querySelector\<close> (a selector string gives an
  exception, \<open>null\<close> or an element), the calls of \<open>scrollIntoView\<close> made so far
  with their options, and the URLs pushed to the history. \<open>history.pushState\<close> adds
  an entry and neither scrolls nor navigates.
\<close>

record scroll_options =
  behavior :: string
  block :: string

record click_event =
  defaultPrevented :: bool

record scroll_page =
  elementIds :: "string list"
  querySelector :: "string \<Rightarrow> js_error + nat option"
  scrollIntoViewCalls :: "(nat \<times> scroll_options) list"
  pushedStates :: "string list"

text \<open>The selector \<open>a[href^="#"]:not([href="#"])\<close> on the link's \<open>href\<close>.\<close>

definition anchorLink :: "string \<Rightarrow> bool" where
  "anchorLink href = (take 1 href = ''#'' \<and> href \<noteq> ''#'')"

definition anchorClick :: "string \<Rightarrow> click_event \<Rightarrow> scroll_page \<Rightarrow> js_error option \<times> click_event \<times> scroll_page" where
  "anchorClick targetId e p =
     (case querySelector p targetId of
        Inl err \<Rightarrow> (Some err, e, p)
      | Inr None \<Rightarrow> (None, e, p)
      | Inr (Some targetElement) \<Rightarrow>
          (None, e\<lparr>defaultPrevented := True\<rparr>,
           p\<lparr>scrollIntoViewCalls := scrollIntoViewCalls p @
                 [(targetElement, \<lparr>behavior = ''smooth'', block = ''start''\<rparr>)],
             pushedStates := pushedStates p @ [targetId]\<rparr>))"

text \<open>A click on a link with the given \<open>href\<close>: only anchor links have the listener.\<close>

definition linkClick :: "string \<Rightarrow> click_event \<Rightarrow> scroll_page \<Rightarrow> js_error option \<times> click_event \<times> scroll_page" where
  "linkClick href e p = (if anchorLink href then anchorClick href e p else (None, e, p))"

section \<open>Header scroll behaviour (initHeaderScroll)\<close>

record header_state =
  header :: "string list"
  ticking :: bool
  frameRequests :: nat

definition scrollThreshold :: real where
  "scrollThreshold = 50"

definition updateHeader :: "real \<Rightarrow> header_state \<Rightarrow> header_state" where
  "updateHeader scrollY s =
     (if scrollY > scrollThreshold then s\<lparr>header := add_class (header s) ''is-scrolled''\<rparr>
      else s\<lparr>header := remove_class (header s) ''is-scrolled''\<rparr>)"

text \<open>
  initHeaderScroll returns at once without a \<open>.header\<close>; otherwise it registers the
  scroll listener and runs updateHeader once.
\<close>

definition initHeaderScroll :: "string list option \<Rightarrow> real \<Rightarrow> header_state option" where
  "initHeaderScroll h scrollY =
     (case h of
        None \<Rightarrow> None
      | Some cl \<Rightarrow> Some (updateHeader scrollY \<lparr>header = cl, ticking = False, frameRequests = 0\<rparr>))"

definition onScroll :: "header_state \<Rightarrow> header_state" where
  "onScroll s =
     (if \<not> ticking s then s\<lparr>frameRequests := Suc (frameRequests s), ticking := True\<rparr> else s)"

definition onAnimationFrame :: "real \<Rightarrow> header_state \<Rightarrow> header_state" where
  "onAnimationFrame scrollY s =
     (if frameRequests s = 0 then s
      else (updateHeader scrollY s)\<lparr>ticking := False, frameRequests := frameRequests s - 1\<rparr>)"

section \<open>Image loading (initImageLoading)\<close>







section \<open>Example pages\<close>

text \<open>A closed lightbox over five gallery items, as initLightbox leaves it.\<close>

definition five_images :: lightbox_state where
  "five_images =
     \<lparr>images = replicate 5 \<lparr>data_lightbox = ''a.jpg'', img_alt = None, focusable = True\<rparr>,
      lightbox = [''lightbox''],
      lightboxImage = Some \<lparr>img_src = [], img_alt_text = [], style_opacity = []\<rparr>,
      lightboxClose = Some True, lightboxPrev = Some (), lightboxNext = Some (),
      currentIndex = Num 0, touchStartX = 0, touchEndX = 0,
      lb_body_overflow = [], activeElement = FocusBody, timeouts = []\<rparr>"

text \<open>A closed lightbox over a single gallery item.\<close>

definition one_image :: lightbox_state where
  "one_image =
     \<lparr>images = [\<lparr>data_lightbox = ''a.jpg'', img_alt = None, focusable = True\<rparr>],
      lightbox = [''lightbox''],
      lightboxImage = Some \<lparr>img_src = [], img_alt_text = [], style_opacity = []\<rparr>,
      lightboxClose = Some True, lightboxPrev = Some (), lightboxNext = Some (),
      currentIndex = Num 0, touchStartX = 0, touchEndX = 0,
      lb_body_overflow = [], activeElement = FocusBody, timeouts = []\<rparr>"

text \<open>
  Pages with one gallery item and the \<open>.lightbox\<close> root, where the close control or
  the image element is missing.
\<close>

definition page_without_close :: lightbox_document where
  "page_without_close =
     \<lparr>q_galleryItems = [\<lparr>data_lightbox = ''photo.jpg'', img_alt = Some ''Photo'', focusable = True\<rparr>],
      q_lightbox = Some [''lightbox''],
      q_lightboxImage = Some \<lparr>img_src = [], img_alt_text = [], style_opacity = []\<rparr>,
      q_lightboxClose = None, q_lightboxPrev = None, q_lightboxNext = None\<rparr>"

definition page_without_image :: lightbox_document where
  "page_without_image =
     \<lparr>q_galleryItems = [\<lparr>data_lightbox = ''photo.jpg'', img_alt = Some ''Photo'', focusable = True\<rparr>],
      q_lightbox = Some [''lightbox''],
      q_lightboxImage = None,
      q_lightboxClose = Some True, q_lightboxPrev = None, q_lightboxNext = None\<rparr>"

text \<open>
  A page without elements that have an id, where no selector matches, and a page
  whose element 1 has the id \<open>section2\<close>.
\<close>

definition page_no_match :: scroll_page where
  "page_no_match =
     \<lparr>elementIds = [], querySelector = (\<lambda>sel. Inr None),
      scrollIntoViewCalls = [], pushedStates = []\<rparr>"

definition page_section2 :: scroll_page where
  "page_section2 =
     \<lparr>elementIds = [''section1'', ''section2''],
      querySelector = (\<lambda>sel. if sel = ''#section1'' then Inr (Some 0)
                              else if sel = ''#section2'' then Inr (Some 1) else Inr None),
      scrollIntoViewCalls = [], pushedStates = []\<rparr>"

text \<open>
  A page whose element 1 has the id \<open>2nd\<close>, with a link to \<open>#2nd\<close>. An id selector
  cannot start with a digit, so \<open>document.querySelector('#2nd')\<close> raises a
  SyntaxError.
\<close>

definition page_2nd :: scroll_page where
  "page_2nd =
     \<lparr>elementIds = [''intro'', ''2nd''],
      querySelector = (\<lambda>sel. if sel = ''#2nd'' then Inl SyntaxError
                              else if sel = ''#intro'' then Inr (Some 0) else Inr None),
      scrollIntoViewCalls = [], pushedStates = []\<rparr>"

text \<open>
  The navigation as the markup has it before any click: closed, with the ARIA
  attributes saying so.
\<close>

definition nav_initial :: nav_state where
  "nav_initial =
     \<lparr>hamburger = \<lparr>classList = [''hamburger''], attributes = [''aria-expanded'' \<mapsto> ''false'']\<rparr>,
      navOverlay = \<lparr>classList = [''nav-overlay''], attributes = [''aria-hidden'' \<mapsto> ''true'']\<rparr>,
      logo = Some [''logo''],
      nav_body_overflow = []\<rparr>"

text \<open>Three filter buttons (the first one active) over two gallery items.\<close>

definition filter_page :: filter_state where
  "filter_page =
     \<lparr>filterButtons =
        [\<lparr>data_filter = Some ''all'', btn_classList = [''gallery__filter-btn'', ''is-active'']\<rparr>,
         \<lparr>data_filter = Some ''portrait'', btn_classList = [''gallery__filter-btn'']\<rparr>,
         \<lparr>data_filter = Some ''landscape'', btn_classList = [''gallery__filter-btn'']\<rparr>],
      galleryItems =
        [\<lparr>data_category = Some ''portrait'', style_display = [], item_classList = [''gallery__item'']\<rparr>,
         \<lparr>data_category = Some ''landscape'', style_display = [], item_classList = [''gallery__item'']\<rparr>],
      revealTimeouts = []\<rparr>"


section \<open>Class lists\<close>

lemma contains_add_class: "contains (add_class cl c) c"
  by (simp add: add_class_def contains_def)

lemma contains_remove_class: "\<not> contains (remove_class cl c) c"
  by (simp add: remove_class_def contains_def)

lemma contains_toggle_class: "contains (toggle_class cl c) c = (\<not> contains cl c)"
  by (simp add: toggle_class_def contains_add_class contains_remove_class)

section \<open>Lightbox: the index\<close>

lemma images_updateLightboxImage: "images (snd (updateLightboxImage s)) = images s"
  by (simp add: updateLightboxImage_def split: option.splits)

lemma currentIndex_updateLightboxImage:
  "currentIndex (snd (updateLightboxImage s)) = currentIndex s"
  by (simp add: updateLightboxImage_def split: option.splits)

lemma lightbox_updateLightboxImage: "lightbox (snd (updateLightboxImage s)) = lightbox s"
  by (simp add: updateLightboxImage_def split: option.splits)

lemma images_nextImage: "images (snd (nextImage s)) = images s"
  by (simp add: nextImage_def images_updateLightboxImage)

lemma images_prevImage: "images (snd (prevImage s)) = images s"
  by (simp add: prevImage_def images_updateLightboxImage)

lemma lightbox_nextImage: "lightbox (snd (nextImage s)) = lightbox s"
  by (simp add: nextImage_def lightbox_updateLightboxImage)

lemma lightbox_prevImage: "lightbox (snd (prevImage s)) = lightbox s"
  by (simp add: prevImage_def lightbox_updateLightboxImage)

text \<open>On a non-negative dividend and a positive divisor \<open>%\<close> is \<open>mod\<close>.\<close>

lemma js_rem_nonneg: "0 \<le> a \<Longrightarrow> 0 < b \<Longrightarrow> js_rem (Num a) (Num b) = Num (a mod b)"
  by (cases "a = 0") (simp_all add: sgn_if)

lemma currentIndex_nextImage:
  assumes "currentIndex s = Num i" "0 \<le> i" "images s \<noteq> []"
  shows "currentIndex (snd (nextImage s)) = Num ((i + 1) mod int (length (images s)))"
proof -
  have "js_rem (Num (i + 1)) (Num (int (length (images s)))) = Num ((i + 1) mod int (length (images s)))"
    using assms by (intro js_rem_nonneg) simp_all
  then show ?thesis
    using assms(1) by (simp add: nextImage_def currentIndex_updateLightboxImage)
qed

lemma currentIndex_prevImage:
  assumes "currentIndex s = Num i" "0 \<le> i" "images s \<noteq> []"
  shows "currentIndex (snd (prevImage s)) =
         Num ((i - 1 + int (length (images s))) mod int (length (images s)))"
proof -
  have "0 < length (images s)" using assms(3) by simp
  then have "0 \<le> i - 1 + int (length (images s))" using assms(2) by linarith
  then have "js_rem (Num (i - 1 + int (length (images s)))) (Num (int (length (images s))))
             = Num ((i - 1 + int (length (images s))) mod int (length (images s)))"
    using assms(3) by (intro js_rem_nonneg) simp_all
  then show ?thesis
    using assms(1) by (simp add: prevImage_def currentIndex_updateLightboxImage)
qed

lemma images_funpow_next: "images (((snd \<circ> nextImage) ^^ k) s) = images s"
  by (induction k) (simp_all add: images_nextImage)

lemma currentIndex_funpow_next:
  assumes "currentIndex s = Num i" "0 \<le> i" "i < int (length (images s))"
  shows "currentIndex (((snd \<circ> nextImage) ^^ k) s) = Num ((i + int k) mod int (length (images s)))"
proof (induction k)
  case 0
  then show ?case using assms by simp
next
  case (Suc k)
  let ?t = "((snd \<circ> nextImage) ^^ k) s"
  let ?N = "int (length (images s))"
  have im: "images ?t = images s" by (rule images_funpow_next)
  have ne: "images ?t \<noteq> []" using assms im by auto
  have "0 < ?N" using assms by linarith
  then have pos: "0 \<le> (i + int k) mod ?N" by (rule pos_mod_sign)
  have "currentIndex (snd (nextImage ?t)) = Num (((i + int k) mod ?N + 1) mod ?N)"
    using currentIndex_nextImage [OF Suc.IH pos ne] im by simp
  also have "((i + int k) mod ?N + 1) mod ?N = (i + int (Suc k)) mod ?N"
    by (simp add: mod_simps add_ac)
  finally show ?case by simp
qed

text \<open>
  Claim C1. In a gallery of N images with the index \<open>i\<close> in \<open>[0, N)\<close> (so N > 0),
  nextImage sets the index to \<open>(i + 1) mod N\<close> and prevImage to \<open>(i - 1 + N) mod N\<close>;
  both stay in \<open>[0, N)\<close>; prevImage undoes nextImage and nextImage undoes prevImage;
  N times nextImage gives the index \<open>i\<close> again. This holds whether or not
  updateLightboxImage raises afterwards.
\<close>

theorem lightbox_index_wraps:
  assumes "currentIndex s = Num i" and "0 \<le> i" and "i < int (length (images s))"
  shows "currentIndex (snd (nextImage s)) = Num ((i + 1) mod int (length (images s)))
       \<and> currentIndex (snd (prevImage s)) =
           Num ((i - 1 + int (length (images s))) mod int (length (images s)))
       \<and> 0 \<le> (i + 1) mod int (length (images s))
       \<and> (i + 1) mod int (length (images s)) < int (length (images s))
       \<and> 0 \<le> (i - 1 + int (length (images s))) mod int (length (images s))
       \<and> (i - 1 + int (length (images s))) mod int (length (images s)) < int (length (images s))
       \<and> currentIndex (snd (prevImage (snd (nextImage s)))) = Num i
       \<and> currentIndex (snd (nextImage (snd (prevImage s)))) = Num i
       \<and> currentIndex (((snd \<circ> nextImage) ^^ length (images s)) s) = Num i"
proof -
  let ?N = "int (length (images s))"
  have ne: "images s \<noteq> []" and N: "0 < ?N" using assms by auto
  have nx: "currentIndex (snd (nextImage s)) = Num ((i + 1) mod ?N)"
    by (rule currentIndex_nextImage [OF assms(1,2) ne])
  have pv: "currentIndex (snd (prevImage s)) = Num ((i - 1 + ?N) mod ?N)"
    by (rule currentIndex_prevImage [OF assms(1,2) ne])
  have r1: "0 \<le> (i + 1) mod ?N" "(i + 1) mod ?N < ?N"
    and r2: "0 \<le> (i - 1 + ?N) mod ?N" "(i - 1 + ?N) mod ?N < ?N"
    using N by simp_all
  have ne1: "images (snd (nextImage s)) \<noteq> []" and ne2: "images (snd (prevImage s)) \<noteq> []"
    using ne by (simp_all add: images_nextImage images_prevImage)
  have "currentIndex (snd (prevImage (snd (nextImage s)))) =
        Num (((i + 1) mod ?N - 1 + ?N) mod ?N)"
    using currentIndex_prevImage [OF nx r1(1) ne1] by (simp add: images_nextImage)
  also have "((i + 1) mod ?N - 1 + ?N) mod ?N = i mod ?N"
    by (simp add: mod_simps)
  finally have pn: "currentIndex (snd (prevImage (snd (nextImage s)))) = Num i"
    using assms by simp
  have "currentIndex (snd (nextImage (snd (prevImage s)))) =
        Num (((i - 1 + ?N) mod ?N + 1) mod ?N)"
    using currentIndex_nextImage [OF pv r2(1) ne2] by (simp add: images_prevImage)
  also have "((i - 1 + ?N) mod ?N + 1) mod ?N = i mod ?N"
    by (simp add: mod_simps)
  finally have np: "currentIndex (snd (nextImage (snd (prevImage s)))) = Num i"
    using assms by simp
  have "currentIndex (((snd \<circ> nextImage) ^^ length (images s)) s) = Num ((i + ?N) mod ?N)"
    by (rule currentIndex_funpow_next [OF assms])
  then have cyc: "currentIndex (((snd \<circ> nextImage) ^^ length (images s)) s) = Num i"
    using assms by simp
  show ?thesis using nx pv r1 r2 pn np cyc by simp
qed

text \<open>
  Witness for C1: five images, start at index 0; prevImage gives 4, nextImage gives 1,
  prevImage after nextImage gives 0, and five times nextImage gives 0.
\<close>

theorem lightbox_index_wraps_witness:
  "currentIndex five_images = Num 0 \<and> length (images five_images) = 5
   \<and> currentIndex (snd (prevImage five_images)) = Num 4
   \<and> currentIndex (snd (nextImage five_images)) = Num 1
   \<and> currentIndex (snd (prevImage (snd (nextImage five_images)))) = Num 0
   \<and> currentIndex (((snd \<circ> nextImage) ^^ 5) five_images) = Num 0"
proof -
  have h: "currentIndex five_images = Num 0" "(0::int) \<le> 0" "0 < int (length (images five_images))"
    by (simp_all add: five_images_def)
  have len: "length (images five_images) = 5" by (simp add: five_images_def)
  show ?thesis using lightbox_index_wraps [OF h] h(1) by (simp add: len)
qed

section \<open>Lightbox: missing elements\<close>

text \<open>
  Claim C2. The claim says that opening the lightbox raises nothing when the gallery
  items and the \<open>.lightbox\<close> root exist and the close control or the image element
  is missing. initLightbox tests only the items and the root, so the closures exist
  on both example pages; a click on the one gallery item calls \<open>openLightbox(0)\<close>,
  which raises a TypeError at \<open>lightboxClose.focus()\<close> on the page without a close
  control and at \<open>lightboxImage.src = imgSrc\<close> on the page without an image element.
\<close>

theorem openLightbox_missing_element_raises:
  "map_option (fst \<circ> openLightbox 0) (initLightbox page_without_close [] FocusBody)
     = Some (Some TypeError)
   \<and> map_option (fst \<circ> openLightbox 0) (initLightbox page_without_image [] FocusBody)
     = Some (Some TypeError)"
  by (simp add: initLightbox_def openLightbox_def page_without_close_def page_without_image_def
        add_class_def contains_def)

section \<open>Lightbox: touch and keyboard navigation\<close>

lemma onTouch_cases:
  "onTouchend en (snd (onTouchstart st s)) =
     (if \<bar>st - en\<bar> < 50 then (None, s\<lparr>touchStartX := st, touchEndX := en\<rparr>)
      else if 0 < st - en then nextImage (s\<lparr>touchStartX := st, touchEndX := en\<rparr>)
      else prevImage (s\<lparr>touchStartX := st, touchEndX := en\<rparr>))"
  by (simp add: onTouchend_def onTouchstart_def handleSwipe_def swipeThreshold_def Let_def)

text \<open>
  Counterexample to C8 as stated. A touch that starts at 100 and ends at 50 has the
  horizontal delta 50, which does not exceed 50; handleSwipe returns early only when
  \<open>Math.abs(diff) < swipeThreshold\<close>, so it calls nextImage and the index goes from 0
  to 1.
\<close>

theorem swipe_at_threshold_counterexample:
  "\<not> 50 < \<bar>(100::int) - 50\<bar> \<and> currentIndex five_images = Num 0
   \<and> currentIndex (snd (onTouchend 50 (snd (onTouchstart 100 five_images)))) = Num 1"
  by (simp add: onTouch_cases five_images_def nextImage_def updateLightboxImage_def)

text \<open>
  Claim C8, amended. For a touch recorded at the start position \<open>st\<close> and the end
  position \<open>en\<close>, the swipe handler navigates exactly when the absolute horizontal
  delta is at least 50: with \<open>|st - en| < 50\<close> nothing but the two recorded positions
  changes (no navigation, the index stays); with \<open>st - en \<ge> 50\<close> (drag left) it runs
  nextImage; with \<open>st - en \<le> -50\<close> (drag right) it runs prevImage.
\<close>

theorem swipe_threshold:
  "(\<bar>st - en\<bar> < 50 \<longrightarrow>
      onTouchend en (snd (onTouchstart st s)) = (None, s\<lparr>touchStartX := st, touchEndX := en\<rparr>)
      \<and> currentIndex (snd (onTouchend en (snd (onTouchstart st s)))) = currentIndex s)
   \<and> (50 \<le> st - en \<longrightarrow>
      onTouchend en (snd (onTouchstart st s)) = nextImage (s\<lparr>touchStartX := st, touchEndX := en\<rparr>))
   \<and> (st - en \<le> - 50 \<longrightarrow>
      onTouchend en (snd (onTouchstart st s)) = prevImage (s\<lparr>touchStartX := st, touchEndX := en\<rparr>))"
proof -
  let ?r = "onTouchend en (snd (onTouchstart st s))"
  let ?s = "s\<lparr>touchStartX := st, touchEndX := en\<rparr>"
  have ignored: "?r = (None, ?s) \<and> currentIndex (snd ?r) = currentIndex s" if "\<bar>st - en\<bar> < 50"
    using that by (simp add: onTouch_cases)
  have left: "?r = nextImage ?s" if "50 \<le> st - en"
  proof -
    from that have "\<not> \<bar>st - en\<bar> < 50" and "0 < st - en" by linarith+
    then show ?thesis by (simp add: onTouch_cases)
  qed
  have right: "?r = prevImage ?s" if "st - en \<le> - 50"
  proof -
    from that have "\<not> \<bar>st - en\<bar> < 50" and "\<not> 0 < st - en" by linarith+
    then show ?thesis by (simp add: onTouch_cases)
  qed
  show ?thesis using ignored left right by blast
qed

text \<open>
  Witness for the amended C8 on five images at index 0: a delta of 40 leaves the
  index at 0, a delta of 50 gives index 1, a delta of -50 gives index 4.
\<close>

theorem swipe_threshold_witness:
  "\<bar>(100::int) - 60\<bar> < 50
   \<and> currentIndex (snd (onTouchend 60 (snd (onTouchstart 100 five_images)))) = Num 0
   \<and> (50::int) \<le> 100 - 50
   \<and> currentIndex (snd (onTouchend 50 (snd (onTouchstart 100 five_images)))) = Num 1
   \<and> (50::int) - 100 \<le> - 50
   \<and> currentIndex (snd (onTouchend 100 (snd (onTouchstart 50 five_images)))) = Num 4"
  using swipe_threshold [of 100 60 five_images] swipe_threshold [of 100 50 five_images]
    swipe_threshold [of 50 100 five_images]
  by (simp add: five_images_def nextImage_def prevImage_def updateLightboxImage_def)

text \<open>
  Counterexample to C10 as stated. The lightbox over a single image is closed and at
  index 0; a touch from 200 to 100 has a delta of 100, which meets the threshold, and
  runs nextImage (it queues a timeout), but \<open>(0 + 1) % 1\<close> is 0: the index does not
  change.
\<close>

theorem swipe_single_image_counterexample:
  "\<not> contains (lightbox one_image) ''is-active''
   \<and> (50::int) \<le> \<bar>200 - 100\<bar>
   \<and> timeouts (snd (onTouchend 100 (snd (onTouchstart 200 one_image)))) \<noteq> timeouts one_image
   \<and> currentIndex (snd (onTouchend 100 (snd (onTouchstart 200 one_image)))) = currentIndex one_image"
  by (simp add: onTouch_cases one_image_def nextImage_def updateLightboxImage_def contains_def)

text \<open>
  Claim C10, amended. The touch listeners do not test the \<open>is-active\<close> class. While
  the lightbox is closed, with the index \<open>i\<close> in \<open>[0, N)\<close>, a touchend whose
  horizontal delta from the recorded touchstart is at least the threshold of 50 runs
  nextImage (positive delta) or prevImage: the index is set to \<open>(i + 1) mod N\<close> or
  \<open>(i - 1 + N) mod N\<close>, which differs from \<open>i\<close> exactly when the gallery has at
  least two images (with a single image it stays 0), and the lightbox stays closed.
  The keydown listener in the same state returns early and leaves everything as it
  was.
\<close>

theorem swipe_not_gated_on_open:
  assumes closed: "\<not> contains (lightbox s) ''is-active''"
    and idx: "currentIndex s = Num i" "0 \<le> i" "i < int (length (images s))"
    and far: "50 \<le> \<bar>st - en\<bar>"
  shows "onTouchend en (snd (onTouchstart st s)) =
           (if 0 < st - en then nextImage (s\<lparr>touchStartX := st, touchEndX := en\<rparr>)
            else prevImage (s\<lparr>touchStartX := st, touchEndX := en\<rparr>))
       \<and> currentIndex (snd (onTouchend en (snd (onTouchstart st s)))) =
           (if 0 < st - en then Num ((i + 1) mod int (length (images s)))
            else Num ((i - 1 + int (length (images s))) mod int (length (images s))))
       \<and> (currentIndex (snd (onTouchend en (snd (onTouchstart st s)))) \<noteq> currentIndex s)
           = (1 < length (images s))
       \<and> \<not> contains (lightbox (snd (onTouchend en (snd (onTouchstart st s))))) ''is-active''
       \<and> onKeydown key s = (None, s)"
proof -
  let ?N = "int (length (images s))"
  let ?s = "s\<lparr>touchStartX := st, touchEndX := en\<rparr>"
  let ?r = "onTouchend en (snd (onTouchstart st s))"
  have ne: "images ?s \<noteq> []" using idx by auto
  have ci: "currentIndex ?s = Num i" using idx by simp
  have r: "?r = (if 0 < st - en then nextImage ?s else prevImage ?s)"
    using far by (simp add: onTouch_cases)
  have c1: "currentIndex (snd ?r) =
           (if 0 < st - en then Num ((i + 1) mod ?N) else Num ((i - 1 + ?N) mod ?N))"
    using currentIndex_nextImage [OF ci idx(2) ne] currentIndex_prevImage [OF ci idx(2) ne]
    by (simp add: r)
  have nx: "(i + 1) mod ?N \<noteq> i" if "1 < ?N"
  proof (cases "i + 1 < ?N")
    case True
    then show ?thesis using idx by simp
  next
    case False
    then have "i + 1 = ?N" using idx by linarith
    then show ?thesis using that by auto
  qed
  have pv: "(i - 1 + ?N) mod ?N \<noteq> i" if "1 < ?N"
  proof (cases "i = 0")
    case True
    have "(?N - 1) mod ?N = ?N - 1" using that by (intro mod_pos_pos_trivial) auto
    moreover have "i - 1 + ?N = ?N - 1" using True by simp
    ultimately show ?thesis using True that by simp
  next
    case False
    then have "0 \<le> i - 1" "i - 1 < ?N" using idx by linarith+
    then show ?thesis by simp
  qed
  have moves: "currentIndex (snd ?r) \<noteq> currentIndex s" if "1 < length (images s)"
    using nx pv that by (simp add: c1 idx(1))
  have stays: "currentIndex (snd ?r) = currentIndex s" if "\<not> 1 < length (images s)"
  proof -
    from that idx have one: "?N = 1" and zero: "i = 0" by linarith+
    show ?thesis by (simp add: c1 idx(1) one zero)
  qed
  have c2: "(currentIndex (snd ?r) \<noteq> currentIndex s) = (1 < length (images s))"
    using moves stays by blast
  have c3: "\<not> contains (lightbox (snd ?r)) ''is-active''"
    using closed by (simp add: r lightbox_nextImage lightbox_prevImage)
  have c4: "onKeydown key s = (None, s)"
    using closed by (simp add: onKeydown_def)
  show ?thesis using r c1 c2 c3 c4 by blast
qed

text \<open>
  Witness for the amended C10: the closed lightbox over five images at index 0; a
  touch from 200 to 100 moves the index to 1, while ArrowRight changes nothing.
\<close>

theorem swipe_not_gated_on_open_witness:
  "\<not> contains (lightbox five_images) ''is-active''
   \<and> currentIndex five_images = Num 0
   \<and> (50::int) \<le> \<bar>200 - 100\<bar>
   \<and> currentIndex (snd (onTouchend 100 (snd (onTouchstart 200 five_images)))) = Num 1
   \<and> currentIndex (snd (onTouchend 100 (snd (onTouchstart 200 five_images)))) \<noteq> currentIndex five_images
   \<and> onKeydown ''ArrowRight'' five_images = (None, five_images)"
proof -
  have h: "\<not> contains (lightbox five_images) ''is-active''" "currentIndex five_images = Num 0"
    "(0::int) \<le> 0" "0 < int (length (images five_images))" "(50::int) \<le> \<bar>200 - 100\<bar>"
    by (simp_all add: five_images_def contains_def)
  have len: "length (images five_images) = 5" by (simp add: five_images_def)
  note t = swipe_not_gated_on_open [OF h, of "''ArrowRight''"]
  have idx: "currentIndex (snd (onTouchend 100 (snd (onTouchstart 200 five_images)))) = Num 1"
    using t [THEN conjunct2, THEN conjunct1] by (simp add: len)
  from t have key: "onKeydown ''ArrowRight'' five_images = (None, five_images)"
    by (elim conjE)
  show ?thesis using h(1,2) idx key by simp
qed

section \<open>Smooth scroll\<close>

text \<open>
  Counterexample to C3 as stated. On a page where nothing matches \<open>#missing\<close>, a
  click on a link with that \<open>href\<close> leaves the event's default action in place:
  \<open>e.preventDefault()\<close> is inside \<open>if (targetElement)\<close>.
\<close>

theorem anchor_no_match_counterexample:
  "anchorLink ''#missing'' \<and> querySelector page_no_match ''#missing'' = Inr None
   \<and> \<not> defaultPrevented (fst (snd (linkClick ''#missing'' \<lparr>defaultPrevented = False\<rparr> page_no_match)))"
  by (simp add: anchorLink_def page_no_match_def linkClick_def anchorClick_def)

text \<open>
  Claim C3, amended. For every click on a same-page hash link whose hash matches no
  element, the handler does nothing at all: it raises nothing, does not cancel the
  default navigation, does not scroll and pushes nothing to the history, so the
  default link behaviour applies.
\<close>

theorem anchor_no_match_untouched:
  assumes "anchorLink href" and "querySelector p href = Inr None"
  shows "linkClick href e p = (None, e, p)"
  using assms by (simp add: linkClick_def anchorClick_def)

text \<open>Witness for the amended C3: the link \<open>#missing\<close> on the page without a match.\<close>

theorem anchor_no_match_untouched_witness:
  "anchorLink ''#missing'' \<and> querySelector page_no_match ''#missing'' = Inr None
   \<and> linkClick ''#missing'' \<lparr>defaultPrevented = False\<rparr> page_no_match
       = (None, \<lparr>defaultPrevented = False\<rparr>, page_no_match)"
proof -
  have a: "anchorLink ''#missing''" by (simp add: anchorLink_def)
  have q: "querySelector page_no_match ''#missing'' = Inr None" by (simp add: page_no_match_def)
  show ?thesis using a q anchor_no_match_untouched [OF a q] by simp
qed

text \<open>
  Where \<open>document.querySelector\<close> resolves the link's hash to an element, the handler
  raises nothing, cancels the default navigation, calls \<open>scrollIntoView\<close> once on
  that element with smooth behaviour and the block position \<open>start\<close>, and pushes
  the hash to the history; no other scroll is made and the document is otherwise as
  before.
\<close>

lemma linkClick_resolved_scrolls:
  assumes "anchorLink href" and "querySelector p href = Inr (Some target)"
  shows "fst (linkClick href e p) = None
       \<and> defaultPrevented (fst (snd (linkClick href e p)))
       \<and> scrollIntoViewCalls (snd (snd (linkClick href e p)))
           = scrollIntoViewCalls p @ [(target, \<lparr>behavior = ''smooth'', block = ''start''\<rparr>)]
       \<and> pushedStates (snd (snd (linkClick href e p))) = pushedStates p @ [href]
       \<and> querySelector (snd (snd (linkClick href e p))) = querySelector p"
  using assms by (simp add: linkClick_def anchorClick_def)

text \<open>On the page where element 1 has the id \<open>section2\<close>, the link \<open>#section2\<close> scrolls to it.\<close>

lemma linkClick_resolved_scrolls_section2:
  "anchorLink ''#section2'' \<and> querySelector page_section2 ''#section2'' = Inr (Some 1)
   \<and> defaultPrevented (fst (snd (linkClick ''#section2'' \<lparr>defaultPrevented = False\<rparr> page_section2)))
   \<and> scrollIntoViewCalls (snd (snd (linkClick ''#section2'' \<lparr>defaultPrevented = False\<rparr> page_section2)))
       = [(1, \<lparr>behavior = ''smooth'', block = ''start''\<rparr>)]
   \<and> pushedStates (snd (snd (linkClick ''#section2'' \<lparr>defaultPrevented = False\<rparr> page_section2)))
       = [''#section2'']"
proof -
  have a: "anchorLink ''#section2''" by (simp add: anchorLink_def)
  have q: "querySelector page_section2 ''#section2'' = Inr (Some 1)"
    by (simp add: page_section2_def)
  have z: "scrollIntoViewCalls page_section2 = []" "pushedStates page_section2 = []"
    by (simp_all add: page_section2_def)
  show ?thesis
    using a q linkClick_resolved_scrolls [OF a q, of "\<lparr>defaultPrevented = False\<rparr>"] by (simp add: z)
qed

text \<open>
  Claim C6. The claim says that every click on a same-page hash link whose hash
  matches an element cancels the default navigation, scrolls the element into view
  and pushes the hash. The handler passes the \<open>href\<close> to \<open>document.querySelector\<close>
  as it is. On the page whose element 1 has the id \<open>2nd\<close>, the link \<open>#2nd\<close> is a
  same-page hash link and its hash matches that element, but the click raises a
  SyntaxError at \<open>document.querySelector(targetId)\<close>: the event keeps its default
  action, no \<open>scrollIntoView\<close> is called and nothing is pushed to the history.
\<close>

theorem anchor_match_invalid_selector_raises:
  "anchorLink ''#2nd'' \<and> ''2nd'' \<in> set (elementIds page_2nd)
   \<and> fst (linkClick ''#2nd'' \<lparr>defaultPrevented = False\<rparr> page_2nd) = Some SyntaxError
   \<and> \<not> defaultPrevented (fst (snd (linkClick ''#2nd'' \<lparr>defaultPrevented = False\<rparr> page_2nd)))
   \<and> scrollIntoViewCalls (snd (snd (linkClick ''#2nd'' \<lparr>defaultPrevented = False\<rparr> page_2nd))) = []
   \<and> pushedStates (snd (snd (linkClick ''#2nd'' \<lparr>defaultPrevented = False\<rparr> page_2nd))) = []"
  by (simp add: anchorLink_def page_2nd_def linkClick_def anchorClick_def)

section \<open>Header\<close>

text \<open>
  Claim C7. After updateHeader has run, whatever classes the header had before, it
  carries \<open>is-scrolled\<close> if and only if \<open>window.scrollY > 50\<close>; the same holds for
  the state initHeaderScroll returns, which has run updateHeader once.
\<close>

theorem header_marker_threshold:
  "contains (header (updateHeader scrollY s)) ''is-scrolled'' = (50 < scrollY)
   \<and> map_option (\<lambda>t. contains (header t) ''is-scrolled'') (initHeaderScroll (Some cl) scrollY)
       = Some (50 < scrollY)"
  by (simp add: updateHeader_def initHeaderScroll_def scrollThreshold_def
        contains_add_class contains_remove_class)

text \<open>The boundary of C7: no marker at 49 and at 50, the marker at 51.\<close>

theorem header_marker_threshold_witness:
  "\<not> contains (header (updateHeader 49 \<lparr>header = [''header'', ''is-scrolled''], ticking = False, frameRequests = 0\<rparr>)) ''is-scrolled''
   \<and> \<not> contains (header (updateHeader 50 \<lparr>header = [''header'', ''is-scrolled''], ticking = False, frameRequests = 0\<rparr>)) ''is-scrolled''
   \<and> contains (header (updateHeader 51 \<lparr>header = [''header''], ticking = False, frameRequests = 0\<rparr>)) ''is-scrolled''"
  using header_marker_threshold [of 49 "\<lparr>header = [''header'', ''is-scrolled''], ticking = False, frameRequests = 0\<rparr>" "[]"]
    header_marker_threshold [of 50 "\<lparr>header = [''header'', ''is-scrolled''], ticking = False, frameRequests = 0\<rparr>" "[]"]
    header_marker_threshold [of 51 "\<lparr>header = [''header''], ticking = False, frameRequests = 0\<rparr>" "[]"]
  by simp

section \<open>Navigation overlay\<close>

lemma toggleNav_consistent:
  assumes "contains (classList (navOverlay s)) ''is-active'' = contains (classList (hamburger s)) ''is-active''"
  shows "nav_consistent (toggleNav s)"
  using assms
  by (simp add: nav_consistent_def toggleNav_def setAttribute_def Let_def contains_toggle_class)

lemma closeNav_consistent: "nav_consistent (closeNav s)"
  by (simp add: nav_consistent_def closeNav_def setAttribute_def Let_def contains_remove_class
        js_string_of_bool_def)

lemma nav_step_consistent: "nav_consistent s \<Longrightarrow> nav_consistent (nav_step x s)"
proof (cases x)
  case ToggleNav
  assume "nav_consistent s"
  then have "contains (classList (navOverlay s)) ''is-active''
             = contains (classList (hamburger s)) ''is-active''"
    by (simp add: nav_consistent_def Let_def)
  then show ?thesis using ToggleNav by (simp add: toggleNav_consistent)
next
  case CloseNav
  then show ?thesis by (simp add: closeNav_consistent)
qed

text \<open>
  Claim C4. From a consistent state, every sequence of toggleNav and closeNav leaves a
  consistent state: the hamburger and the overlay agree on \<open>is-active\<close>, the body's
  overflow is \<open>hidden\<close> exactly while they are active and empty otherwise,
  \<open>aria-expanded\<close> of the hamburger is the active state and \<open>aria-hidden\<close> of the
  overlay is its negation.
\<close>

theorem nav_state_consistent:
  assumes "nav_consistent s"
  shows "nav_consistent (nav_run ops s)"
  using assms
proof (induction ops arbitrary: s)
  case Nil
  then show ?case by simp
next
  case (Cons x xs)
  then show ?case by (simp add: nav_step_consistent)
qed

text \<open>
  Witness for C4: the initial navigation is consistent; after toggle, close and three
  more toggles it is consistent and open, with the body's overflow hidden.
\<close>

theorem nav_state_consistent_witness:
  "nav_consistent nav_initial
   \<and> nav_consistent (nav_run [ToggleNav, CloseNav, ToggleNav, ToggleNav, ToggleNav] nav_initial)
   \<and> contains (classList (hamburger (nav_run [ToggleNav, CloseNav, ToggleNav, ToggleNav, ToggleNav] nav_initial))) ''is-active''
   \<and> nav_body_overflow (nav_run [ToggleNav, CloseNav, ToggleNav, ToggleNav, ToggleNav] nav_initial) = ''hidden''"
proof -
  have h: "nav_consistent nav_initial"
    by (simp add: nav_consistent_def nav_initial_def contains_def js_string_of_bool_def)
  have a: "contains (classList (hamburger (nav_run [ToggleNav, CloseNav, ToggleNav, ToggleNav, ToggleNav] nav_initial))) ''is-active''"
    by (simp add: nav_initial_def toggleNav_def closeNav_def setAttribute_def Let_def
          toggle_class_def add_class_def remove_class_def contains_def)
  from nav_state_consistent [OF h, of "[ToggleNav, CloseNav, ToggleNav, ToggleNav, ToggleNav]"]
  have c: "nav_consistent (nav_run [ToggleNav, CloseNav, ToggleNav, ToggleNav, ToggleNav] nav_initial)" .
  from c a have "nav_body_overflow (nav_run [ToggleNav, CloseNav, ToggleNav, ToggleNav, ToggleNav] nav_initial) = ''hidden''"
    unfolding nav_consistent_def Let_def by simp
  with h c a show ?thesis by simp
qed

section \<open>Gallery filters\<close>

lemma remove_class_idem: "remove_class (remove_class cl c) c = remove_class cl c"
  by (simp add: remove_class_def)

lemma remove_add_remove_class: "remove_class (add_class (remove_class cl c) c) c = remove_class cl c"
  by (simp add: remove_class_def add_class_def contains_def)

lemma length_filterButtons_filterClick:
  "length (filterButtons (filterClick k s)) = length (filterButtons s)"
  by (simp add: filterClick_def Let_def)

lemma length_galleryItems_filterClick:
  "length (galleryItems (filterClick k s)) = length (galleryItems s)"
  by (simp add: filterClick_def Let_def)

lemma filterButtons_filterClick_nth:
  assumes "k < length (filterButtons s)" "j < length (filterButtons s)"
  shows "filterButtons (filterClick k s) ! j =
         (filterButtons s ! j)\<lparr>btn_classList :=
            (if j = k then add_class (remove_class (btn_classList (filterButtons s ! j)) ''is-active'') ''is-active''
             else remove_class (btn_classList (filterButtons s ! j)) ''is-active'')\<rparr>"
  using assms by (simp add: filterClick_def Let_def nth_list_update)

lemma data_filter_filterClick:
  "map data_filter (filterButtons (filterClick k s)) = map data_filter (filterButtons s)"
proof (cases "k < length (filterButtons s)")
  case True
  show ?thesis
  proof (rule nth_equalityI)
    show "length (map data_filter (filterButtons (filterClick k s))) = length (map data_filter (filterButtons s))"
      by (simp add: length_filterButtons_filterClick)
  next
    fix j assume "j < length (map data_filter (filterButtons (filterClick k s)))"
    then have j: "j < length (filterButtons s)" by (simp add: length_filterButtons_filterClick)
    then show "map data_filter (filterButtons (filterClick k s)) ! j = map data_filter (filterButtons s) ! j"
      using True by (simp add: length_filterButtons_filterClick filterButtons_filterClick_nth)
  qed
next
  case False
  then show ?thesis by (simp add: filterClick_def)
qed

lemma data_category_filter_item_pass: "data_category (filter_item_pass f item) = data_category item"
  by (simp add: filter_item_pass_def)

lemma data_category_filterClick:
  "map data_category (galleryItems (filterClick k s)) = map data_category (galleryItems s)"
  by (simp add: filterClick_def Let_def data_category_filter_item_pass)

lemma style_display_filter_item_pass:
  "style_display (filter_item_pass f item) =
     (if f = Some ''all'' \<or> data_category item = f then [] else ''none'')"
  by (simp add: filter_item_pass_def item_shown_def)

lemma style_display_filterClick:
  assumes "k < length (filterButtons s)"
  shows "map style_display (galleryItems (filterClick k s)) =
         map (\<lambda>c. if map data_filter (filterButtons s) ! k = Some ''all''
                      \<or> c = map data_filter (filterButtons s) ! k then [] else ''none'')
             (map data_category (galleryItems s))"
  using assms by (simp add: filterClick_def Let_def style_display_filter_item_pass)

lemma filterButtons_filterClick_twice:
  assumes "k < length (filterButtons s)"
  shows "filterButtons (filterClick k (filterClick j s)) = filterButtons (filterClick k s)"
proof (cases "j < length (filterButtons s)")
  case True
  show ?thesis
  proof (rule nth_equalityI)
    show "length (filterButtons (filterClick k (filterClick j s))) = length (filterButtons (filterClick k s))"
      by (simp add: length_filterButtons_filterClick)
  next
    fix m assume "m < length (filterButtons (filterClick k (filterClick j s)))"
    then have m: "m < length (filterButtons s)" by (simp add: length_filterButtons_filterClick)
    have k': "k < length (filterButtons (filterClick j s))"
      and m': "m < length (filterButtons (filterClick j s))"
      using assms m by (simp_all add: length_filterButtons_filterClick)
    show "filterButtons (filterClick k (filterClick j s)) ! m = filterButtons (filterClick k s) ! m"
      by (simp add: filterButtons_filterClick_nth [OF k' m']
            filterButtons_filterClick_nth [OF True m]
            filterButtons_filterClick_nth [OF True assms]
            filterButtons_filterClick_nth [OF assms m]
            remove_class_idem remove_add_remove_class)
  qed
next
  case False
  then show ?thesis by (simp add: filterClick_def)
qed

lemma style_display_filterClick_twice:
  assumes "k < length (filterButtons s)"
  shows "map style_display (galleryItems (filterClick k (filterClick j s)))
         = map style_display (galleryItems (filterClick k s))"
proof -
  have "k < length (filterButtons (filterClick j s))"
    using assms by (simp add: length_filterButtons_filterClick)
  then show ?thesis
    by (simp only: style_display_filterClick assms data_filter_filterClick data_category_filterClick)
qed

lemma filterClicks_last_decides:
  assumes "k < length (filterButtons s)"
  shows "filterButtons (filterClicks (ks @ [k]) s) = filterButtons (filterClick k s)
       \<and> map style_display (galleryItems (filterClicks (ks @ [k]) s))
           = map style_display (galleryItems (filterClick k s))"
  using assms
proof (induction ks arbitrary: s)
  case Nil
  then show ?case by simp
next
  case (Cons j ks)
  have "k < length (filterButtons (filterClick j s))"
    using Cons.prems by (simp add: length_filterButtons_filterClick)
  from Cons.IH [OF this] show ?case
    by (simp add: filterButtons_filterClick_twice [OF Cons.prems]
          style_display_filterClick_twice [OF Cons.prems])
qed

lemma filter_item_pass_idem: "filter_item_pass f (filter_item_pass f item) = filter_item_pass f item"
  by (simp add: filter_item_pass_def item_shown_def remove_class_idem)

lemma galleryItems_filterClick_idem:
  assumes "k < length (filterButtons s)"
  shows "galleryItems (filterClick k (filterClick k s)) = galleryItems (filterClick k s)"
proof -
  have k': "k < length (filterButtons (filterClick k s))"
    using assms by (simp add: length_filterButtons_filterClick)
  have "data_filter (filterButtons (filterClick k s) ! k) = data_filter (filterButtons s ! k)"
    using assms by (simp add: filterButtons_filterClick_nth)
  then have "galleryItems (filterClick k (filterClick k s)) =
        map (filter_item_pass (data_filter (filterButtons s ! k))) (galleryItems (filterClick k s))"
    using k' by (simp add: filterClick_def [of k "filterClick k s"] Let_def)
  also have "\<dots> = galleryItems (filterClick k s)"
    using assms by (simp add: filterClick_def [of k s] Let_def filter_item_pass_idem)
  finally show ?thesis .
qed

text \<open>
  Claim C5. After any sequence of clicks on filter buttons that ends with the button
  at position \<open>k\<close>, the button \<open>k\<close> and no other carries \<open>is-active\<close>, and every
  gallery item's display is empty (shown) when that button's filter is \<open>all\<close> or
  equals the item's category, and \<open>none\<close> otherwise. The buttons and the displays
  are those a single click on \<open>k\<close> gives, whatever was clicked before, and a second
  click on \<open>k\<close> changes neither the buttons nor the items.
\<close>

theorem filter_last_click_decides:
  assumes "k < length (filterButtons s)"
  shows "length (filterButtons (filterClicks (ks @ [k]) s)) = length (filterButtons s)
       \<and> (\<forall>j < length (filterButtons s).
             contains (btn_classList (filterButtons (filterClicks (ks @ [k]) s) ! j)) ''is-active''
             = (j = k))
       \<and> length (galleryItems (filterClicks (ks @ [k]) s)) = length (galleryItems s)
       \<and> (\<forall>i < length (galleryItems s).
             style_display (galleryItems (filterClicks (ks @ [k]) s) ! i) =
               (if data_filter (filterButtons s ! k) = Some ''all''
                   \<or> data_category (galleryItems s ! i) = data_filter (filterButtons s ! k)
                then [] else ''none''))
       \<and> filterButtons (filterClicks (ks @ [k]) s) = filterButtons (filterClick k s)
       \<and> map style_display (galleryItems (filterClicks (ks @ [k]) s))
           = map style_display (galleryItems (filterClick k s))
       \<and> filterButtons (filterClick k (filterClick k s)) = filterButtons (filterClick k s)
       \<and> galleryItems (filterClick k (filterClick k s)) = galleryItems (filterClick k s)"
proof -
  let ?s' = "filterClicks (ks @ [k]) s"
  have last: "filterButtons ?s' = filterButtons (filterClick k s)"
    "map style_display (galleryItems ?s') = map style_display (galleryItems (filterClick k s))"
    using filterClicks_last_decides [OF assms, of ks] by simp_all
  have l1: "length (filterButtons ?s') = length (filterButtons s)"
    by (simp add: last(1) length_filterButtons_filterClick)
  have "length (map style_display (galleryItems ?s')) = length (galleryItems s)"
    by (simp only: last(2) length_map length_galleryItems_filterClick)
  then have l2: "length (galleryItems ?s') = length (galleryItems s)" by simp
  have b: "contains (btn_classList (filterButtons ?s' ! j)) ''is-active'' = (j = k)"
    if "j < length (filterButtons s)" for j
    using that assms
    by (simp add: last(1) filterButtons_filterClick_nth contains_add_class contains_remove_class)
  have d: "style_display (galleryItems ?s' ! i) =
             (if data_filter (filterButtons s ! k) = Some ''all''
                 \<or> data_category (galleryItems s ! i) = data_filter (filterButtons s ! k)
              then [] else ''none'')"
    if "i < length (galleryItems s)" for i
  proof -
    have "style_display (galleryItems ?s' ! i) = map style_display (galleryItems ?s') ! i"
      using that l2 by simp
    also have "\<dots> = map style_display (galleryItems (filterClick k s)) ! i"
      by (simp only: last(2))
    also have "\<dots> = (if data_filter (filterButtons s ! k) = Some ''all''
                 \<or> data_category (galleryItems s ! i) = data_filter (filterButtons s ! k)
              then [] else ''none'')"
      using that assms by (simp add: style_display_filterClick)
    finally show ?thesis .
  qed
  have i1: "filterButtons (filterClick k (filterClick k s)) = filterButtons (filterClick k s)"
    by (rule filterButtons_filterClick_twice [OF assms])
  have i2: "galleryItems (filterClick k (filterClick k s)) = galleryItems (filterClick k s)"
    by (rule galleryItems_filterClick_idem [OF assms])
  show ?thesis using l1 l2 b d last i1 i2 by blast
qed

text \<open>
  Witness for C5: clicks on \<open>all\<close>, \<open>landscape\<close> and then \<open>portrait\<close>; only the
  portrait button is active, the portrait item is shown and the landscape item hidden.
\<close>

theorem filter_last_click_decides_witness:
  "1 < length (filterButtons filter_page)
   \<and> \<not> contains (btn_classList (filterButtons (filterClicks [0, 2, 1] filter_page) ! 0)) ''is-active''
   \<and> contains (btn_classList (filterButtons (filterClicks [0, 2, 1] filter_page) ! 1)) ''is-active''
   \<and> \<not> contains (btn_classList (filterButtons (filterClicks [0, 2, 1] filter_page) ! 2)) ''is-active''
   \<and> style_display (galleryItems (filterClicks [0, 2, 1] filter_page) ! 0) = []
   \<and> style_display (galleryItems (filterClicks [0, 2, 1] filter_page) ! 1) = ''none''"
proof -
  have h: "1 < length (filterButtons filter_page)" by (simp add: filter_page_def)
  have nb: "length (filterButtons filter_page) = 3" and ni: "length (galleryItems filter_page) = 2"
    by (simp_all add: filter_page_def)
  have ap: "[0, 2] @ [1] = [0, 2, 1::nat]" by simp
  note t = filter_last_click_decides [OF h, of "[0, 2]", unfolded ap nb ni]
  from t have b: "\<forall>j<3. contains (btn_classList (filterButtons (filterClicks [0, 2, 1] filter_page) ! j)) ''is-active'' = (j = 1)"
    by (elim conjE)
  from t have d: "\<forall>i<2. style_display (galleryItems (filterClicks [0, 2, 1] filter_page) ! i) =
               (if data_filter (filterButtons filter_page ! 1) = Some ''all''
                   \<or> data_category (galleryItems filter_page ! i) = data_filter (filterButtons filter_page ! 1)
                then [] else ''none'')"
    by (elim conjE)
  have b0: "\<not> contains (btn_classList (filterButtons (filterClicks [0, 2, 1] filter_page) ! 0)) ''is-active''"
    using b [rule_format, of 0] by simp
  have b1: "contains (btn_classList (filterButtons (filterClicks [0, 2, 1] filter_page) ! 1)) ''is-active''"
    using b [rule_format, of 1] by simp
  have b2: "\<not> contains (btn_classList (filterButtons (filterClicks [0, 2, 1] filter_page) ! 2)) ''is-active''"
    using b [rule_format, of 2] by simp
  have d0: "style_display (galleryItems (filterClicks [0, 2, 1] filter_page) ! 0) = []"
    using d [rule_format, of 0] by (simp add: filter_page_def)
  have d1: "style_display (galleryItems (filterClicks [0, 2, 1] filter_page) ! 1) = ''none''"
    using d [rule_format, of 1] by (simp add: filter_page_def)
  show ?thesis using h b0 b1 b2 d0 d1 by simp
qed

section \<open>Image loading\<close>






end
